theory Spec2Isabelle
  imports Main "HOL-Library.Multiset" "HOL-Library.Product_Lexorder"
begin

section \<open>Retry with exponential backoff\<close>

text \<open>
  \<^verbatim>\<open>withRetry(fn, retries = 3)\<close> calls the asynchronous action \<^verbatim>\<open>fn\<close> in a
  \<^verbatim>\<open>for\<close> loop. The action is stateful, so it is modelled by what its successive
  invocations do: invocation number \<open>i\<close> (from 0) issues the call \<open>fst (fn i)\<close> and settles
  with \<open>snd (fn i)\<close>, \<open>Inl\<close> for a rejection and \<open>Inr\<close> for a value. The loop invokes the
  action once per iteration, so iteration \<open>i\<close> sees invocation \<open>i\<close>.

  The result of the loop is a pair: the trace of what was done, in order (calls of the
  action and the delays handed to \<^verbatim>\<open>setTimeout\<close>, in milliseconds), and the way the
  promise settles: \<open>Inl e\<close> when it rejects with \<open>e\<close>, \<open>Inr (Some v)\<close> when it resolves
  with the action's value, \<open>Inr None\<close> when the loop ends without a \<^verbatim>\<open>return\<close> and the
  promise resolves with \<^verbatim>\<open>undefined\<close>. The budget \<open>retries\<close> is an integer and may
  be zero or negative.
\<close>

text \<open>
  The delay \<^verbatim>\<open>Math.pow(2, i) * 1000\<close> is a double. The product \<open>2 ^ i * 1000\<close> is
  \<open>125 * 2 ^ (i + 3)\<close>, which a double holds exactly as long as it is below \<open>2 ^ 1024\<close>,
  that is for \<open>i < 1015\<close>; from \<open>i = 1015\<close> on the product overflows to \<^verbatim>\<open>Infinity\<close>.
\<close>

datatype number = Num nat | Infinity

definition Math_pow_2_times_1000 :: "nat \<Rightarrow> number" where
  "Math_pow_2_times_1000 i = (if i < 1015 then Num (2 ^ i * 1000) else Infinity)"


datatype 'c event = Call 'c | Sleep number

function withRetry_loop ::
  "(nat \<Rightarrow> 'c \<times> ('e + 'a)) \<Rightarrow> int \<Rightarrow> nat \<Rightarrow> 'c event list \<times> ('e + 'a option)" where
  "withRetry_loop fn retries i =
     (if int i < retries then
        (case fn i of
           (c, Inr v) \<Rightarrow> ([Call c], Inr (Some v))
         | (c, Inl error) \<Rightarrow>
             if int i = retries - 1 then ([Call c], Inl error)
             else (let delay = Math_pow_2_times_1000 i;
                       (evs, r) = withRetry_loop fn retries (i + 1)
                   in (Call c # Sleep delay # evs, r)))
      else ([], Inr None))"
  by pat_completeness auto
termination
  by (relation "measure (\<lambda>(fn, retries, i). nat (retries - int i))") auto

declare withRetry_loop.simps [simp del]

definition withRetry ::
  "(nat \<Rightarrow> 'c \<times> ('e + 'a)) \<Rightarrow> int \<Rightarrow> 'c event list \<times> ('e + 'a option)" where
  "withRetry fn retries = withRetry_loop fn retries 0"

text \<open>
  What a trace shows: how often the action was invoked, the delays handed to the timer in
  order, and the times the timer waited.
\<close>

fun is_Call :: "'c event \<Rightarrow> bool" where
  "is_Call (Call c) = True"
| "is_Call (Sleep d) = False"

definition attempts :: "'c event list \<Rightarrow> nat" where
  "attempts evs = length (filter is_Call evs)"



text \<open>
  The trace of a run whose invocations \<open>i, \<dots>, m - 1\<close> are each followed by a wait and
  whose invocation \<open>m\<close> is the last thing done: the delay after invocation \<open>j\<close> is
  \<^verbatim>\<open>Math.pow(2, j) * 1000\<close>.
\<close>

definition backoff_trace :: "(nat \<Rightarrow> 'c \<times> ('e + 'a)) \<Rightarrow> nat \<Rightarrow> nat \<Rightarrow> 'c event list" where
  "backoff_trace fn i m =
     concat (map (\<lambda>j. [Call (fst (fn j)), Sleep (Math_pow_2_times_1000 j)]) [i..<m])
     @ [Call (fst (fn m))]"


section \<open>Task records and the order of a snapshot\<close>

text \<open>
  A task as the snapshot listener builds it, \<^verbatim>\<open>{ id: doc.id, ...doc.data() }\<close>. The
  field \<open>createdAt\<close> is \<open>Some ms\<close> for a timestamp object whose \<^verbatim>\<open>toMillis()\<close> is \<open>ms\<close>
  (an integer, negative before 1970) and \<open>None\<close> while the server timestamp of a local
  write is pending and the field reads \<^verbatim>\<open>null\<close>.
\<close>

record task =
  task_id :: string
  task_text :: string
  completed :: bool
  createdAt :: "int option"

text \<open>\<^verbatim>\<open>x.createdAt?.toMillis() || 0\<close>: a missing timestamp, and a zero one, give 0.\<close>

definition toMillis_or_0 :: "int option \<Rightarrow> int" where
  "toMillis_or_0 c = (case c of None \<Rightarrow> 0 | Some ms \<Rightarrow> if ms \<noteq> 0 then ms else 0)"

definition comparator :: "task \<Rightarrow> task \<Rightarrow> int" where
  "comparator a b =
     (if completed a \<noteq> completed b then (if completed a then 1 else - 1)
      else (let timeA = toMillis_or_0 (createdAt a);
                timeB = toMillis_or_0 (createdAt b)
            in timeB - timeA))"

text \<open>
  \<^verbatim>\<open>Array.prototype.sort(comparefn)\<close> is a stable sort: it arranges the array in the
  order of the comparison function (\<open>x\<close> before \<open>y\<close> when \<open>cmp x y < 0\<close>) and keeps elements
  that compare equal in their input order. The algorithm is the engine's; the model is
  the stable insertion sort, and \<open>sort_fetchedTasks_unique\<close> below shows that for this
  comparison function every stable arrangement in comparator order is the same list.
\<close>

fun insert_sorted :: "('a \<Rightarrow> 'a \<Rightarrow> int) \<Rightarrow> 'a \<Rightarrow> 'a list \<Rightarrow> 'a list" where
  "insert_sorted cmp x [] = [x]"
| "insert_sorted cmp x (y # ys) =
     (if cmp x y \<le> 0 then x # y # ys else y # insert_sorted cmp x ys)"

fun array_sort :: "('a \<Rightarrow> 'a \<Rightarrow> int) \<Rightarrow> 'a list \<Rightarrow> 'a list" where
  "array_sort cmp [] = []"
| "array_sort cmp (x # xs) = insert_sorted cmp x (array_sort cmp xs)"

definition sort_fetchedTasks :: "task list \<Rightarrow> task list" where
  "sort_fetchedTasks fetchedTasks = array_sort comparator fetchedTasks"

text \<open>The key the comparison function orders by: completion first, then newest first.\<close>

definition sort_key_of :: "task \<Rightarrow> bool \<times> int" where
  "sort_key_of t = (completed t, - toMillis_or_0 (createdAt t))"


section \<open>Values exchanged with the generation endpoint\<close>

text \<open>
  The body of an HTTP response as \<^verbatim>\<open>axios\<close> hands it over, a parsed JSON value. An
  object is the list of its members, each name once; a member is read with \<open>get_field\<close>, whose \<open>None\<close> is
  \<^verbatim>\<open>undefined\<close>. The program reads the members \<^verbatim>\<open>tasks\<close> and \<^verbatim>\<open>error\<close> only,
  which no string, number, boolean or array has. Numbers are integers here: the program
  looks at a number only to see whether it is zero.
\<close>

datatype json =
  JNull | JBool bool | JNum int | JStr string | JArr "json list" | JObj "(string \<times> json) list"

fun truthy :: "json \<Rightarrow> bool" where
  "truthy JNull = False"
| "truthy (JBool b) = b"
| "truthy (JNum n) = (n \<noteq> 0)"
| "truthy (JStr s) = (s \<noteq> [])"
| "truthy (JArr xs) = True"
| "truthy (JObj kvs) = True"

fun get_field :: "json \<Rightarrow> string \<Rightarrow> json option" where
  "get_field (JObj kvs) k = map_of kvs k"
| "get_field v k = None"

datatype response = Response (data: json)

text \<open>
  A rejection of \<^verbatim>\<open>axios.post\<close>: \<open>error_response\<close> is \<open>None\<close> when no response arrived (a
  network failure) and the response otherwise (a status outside 2xx).
\<close>

datatype axios_error = AxiosError (error_response: "response option")

section \<open>Strings\<close>

text \<open>
  \<^verbatim>\<open>String.prototype.trim\<close> removes white space and line terminators from both ends.
  Among the characters of \<^typ>\<open>char\<close> these are tab, line feed, vertical tab, form
  feed, carriage return, space and the no-break space.
\<close>

definition is_white :: "char \<Rightarrow> bool" where
  "is_white c \<longleftrightarrow> c \<in> set [CHR 0x09, CHR 0x0A, CHR 0x0B, CHR 0x0C, CHR 0x0D, CHR 0x20, CHR 0xA0]"

definition trim :: "string \<Rightarrow> string" where
  "trim s = rev (dropWhile is_white (rev (dropWhile is_white s)))"

section \<open>The component's state and its handlers\<close>

text \<open>
  The state variables of the component that the handlers below read or write, with the
  initial values of their \<^verbatim>\<open>useState\<close> calls. \<open>None\<close> is \<^verbatim>\<open>null\<close>. The suggestion
  buffer holds the elements of the array the endpoint returned, whatever they are.
\<close>

datatype firestore = Firestore

record app_state =
  db :: "firestore option"
  userId :: "string option"
  tasks :: "task list"
  newTaskText :: string
  loading :: bool
  aiPrompt :: string
  isGenerating :: bool
  generationError :: "json option"
  aiSuggestions :: "json list"
  showAiModal :: bool
  errorMessage :: string

definition initial_state :: app_state where
  "initial_state =
     \<lparr>db = None, userId = None, tasks = [], newTaskText = [], loading = True,
      aiPrompt = [], isGenerating = False, generationError = None, aiSuggestions = [],
      showAiModal = False, errorMessage = []\<rparr>"

text \<open>The two values the module takes from its environment.\<close>

record env =
  appId :: string
  API_URL :: string

text \<open>The values the module falls back on when the environment provides none.\<close>

definition default_env :: env where
  "default_env = \<lparr>appId = ''default-app-id'', API_URL = ''http://localhost:5001/api''\<rparr>"

text \<open>The snapshot listener: sort the fetched tasks, store them, stop loading.\<close>

definition onSnapshot_next :: "app_state \<Rightarrow> task list \<Rightarrow> app_state" where
  "onSnapshot_next s fetchedTasks = s\<lparr>tasks := sort_fetchedTasks fetchedTasks, loading := False\<rparr>"

text \<open>
  The calls that leave the component. \<open>AddDoc path text completed createdAt\<close> inserts a
  record, \<open>UpdateDoc path completed\<close> writes the field \<^verbatim>\<open>completed\<close>, \<open>DeleteDoc path\<close>
  removes a record, \<open>Post url prompt\<close> is the request to the generation endpoint.
\<close>

datatype field_value = ServerTimestamp

datatype remote_call =
  AddDoc string string bool field_value
| UpdateDoc string bool
| DeleteDoc string
| Post string string

text \<open>
  Each handler takes the state and, where it calls out, the replies of the collaborator
  to its successive attempts; it returns the state it leaves and the trace of its calls
  and waits. The asynchronous handlers are taken as a whole, from the call to the
  settling of their promise: the fields they write are set by absolute writes, so the
  values below are the ones they leave whatever else runs while they wait. They call
  \<^verbatim>\<open>withRetry\<close> without a budget, so with its default of 3. A handler reads the state
  variables that its callback captured; for those in its dependency list these are the
  current ones.
\<close>

definition tasksCollectionPath :: "env \<Rightarrow> string \<Rightarrow> string" where
  "tasksCollectionPath env uid = ''artifacts/'' @ appId env @ ''/users/'' @ uid @ ''/tasks''"

definition taskDocPath :: "env \<Rightarrow> string \<Rightarrow> string \<Rightarrow> string" where
  "taskDocPath env uid taskId =
     ''artifacts/'' @ appId env @ ''/users/'' @ uid @ ''/tasks/'' @ taskId"

definition addTask ::
  "env \<Rightarrow> app_state \<Rightarrow> string \<Rightarrow> (nat \<Rightarrow> 'e + 'r) \<Rightarrow> app_state \<times> remote_call event list" where
  "addTask env s text addDoc =
     (case (db s, userId s) of
        (Some d, Some uid) \<Rightarrow>
          if uid = [] \<or> trim text = [] then (s, [])
          else
            (let (evs, r) = withRetry
                   (\<lambda>i. (AddDoc (tasksCollectionPath env uid) (trim text) False ServerTimestamp,
                         addDoc i)) 3
             in case r of
                  Inr v \<Rightarrow> (s\<lparr>newTaskText := []\<rparr>, evs)
                | Inl error \<Rightarrow> (s\<lparr>errorMessage := ''Could not add task. Please try again.''\<rparr>, evs))
      | _ \<Rightarrow> (s, []))"

definition toggleTaskCompletion ::
  "env \<Rightarrow> app_state \<Rightarrow> string \<Rightarrow> bool \<Rightarrow> (nat \<Rightarrow> 'e + 'r) \<Rightarrow> app_state \<times> remote_call event list" where
  "toggleTaskCompletion env s taskId completed' updateDoc =
     (case (db s, userId s) of
        (Some d, Some uid) \<Rightarrow>
          if uid = [] then (s, [])
          else
            (let (evs, r) = withRetry
                   (\<lambda>i. (UpdateDoc (taskDocPath env uid taskId) (\<not> completed'), updateDoc i)) 3
             in case r of
                  Inr v \<Rightarrow> (s, evs)
                | Inl error \<Rightarrow> (s\<lparr>errorMessage := ''Could not update task status.''\<rparr>, evs))
      | _ \<Rightarrow> (s, []))"

definition deleteTask ::
  "env \<Rightarrow> app_state \<Rightarrow> string \<Rightarrow> (nat \<Rightarrow> 'e + 'r) \<Rightarrow> app_state \<times> remote_call event list" where
  "deleteTask env s taskId deleteDoc =
     (case (db s, userId s) of
        (Some d, Some uid) \<Rightarrow>
          if uid = [] then (s, [])
          else
            (let (evs, r) = withRetry
                   (\<lambda>i. (DeleteDoc (taskDocPath env uid taskId), deleteDoc i)) 3
             in case r of
                  Inr v \<Rightarrow> (s, evs)
                | Inl error \<Rightarrow> (s\<lparr>errorMessage := ''Could not delete task.''\<rparr>, evs))
      | _ \<Rightarrow> (s, []))"

text \<open>
  \<^verbatim>\<open>response.data && Array.isArray(response.data.tasks)\<close>: the array, when the test
  passes.
\<close>

definition tasks_array :: "json \<Rightarrow> json list option" where
  "tasks_array d =
     (if truthy d then (case get_field d ''tasks'' of Some (JArr ts) \<Rightarrow> Some ts | _ \<Rightarrow> None)
      else None)"

definition connect_failure :: json where
  "connect_failure = JStr ''Failed to connect to the AI service. Check your backend and API key.''"

text \<open>\<^verbatim>\<open>error.response?.data?.error || '...'\<close>\<close>

definition error_text :: "axios_error \<Rightarrow> json" where
  "error_text error =
     (case error_response error of
        None \<Rightarrow> connect_failure
      | Some r \<Rightarrow>
          if data r = JNull then connect_failure
          else (case get_field (data r) ''error'' of
                  None \<Rightarrow> connect_failure
                | Some v \<Rightarrow> if truthy v then v else connect_failure))"

text \<open>
  \<open>generateTasksFromPrompt\<close> is created by \<^verbatim>\<open>useCallback(..., [aiPrompt])\<close>: the prompt
  it reads is the current one, but its \<^verbatim>\<open>isGenerating\<close> is the value of the render in
  which the prompt last changed. That captured value is the argument \<open>isGenerating'\<close>.

  The handler has two parts. Up to its \<^verbatim>\<open>await\<close> it marks the generation as running
  and resets the error and the buffer (\<open>generate_start\<close>). When \<^verbatim>\<open>withRetry\<close> has settled,
  it writes the buffer or the error and clears the mark (\<open>generate_settle\<close>), on the state
  as it is by then. When \<^verbatim>\<open>withRetry\<close> resolves with \<^verbatim>\<open>undefined\<close>, reading
  \<^verbatim>\<open>response.data\<close> throws inside the \<^verbatim>\<open>try\<close> block, and the \<^verbatim>\<open>catch\<close> clause finds
  no \<^verbatim>\<open>response\<close> on that error.
\<close>

definition generate_start :: "app_state \<Rightarrow> app_state" where
  "generate_start s = s\<lparr>isGenerating := True, generationError := None, aiSuggestions := []\<rparr>"

definition generate_settle :: "app_state \<Rightarrow> axios_error + response option \<Rightarrow> app_state" where
  "generate_settle s r =
     (let s2 = (case r of
                  Inr (Some response) \<Rightarrow>
                    (case tasks_array (data response) of
                       Some ts \<Rightarrow> s\<lparr>aiSuggestions := ts\<rparr>
                     | None \<Rightarrow>
                         s\<lparr>generationError := Some (JStr ''AI returned an unexpected format.'')\<rparr>)
                | Inr None \<Rightarrow> s\<lparr>generationError := Some connect_failure\<rparr>
                | Inl error \<Rightarrow> s\<lparr>generationError := Some (error_text error)\<rparr>)
      in s2\<lparr>isGenerating := False\<rparr>)"

definition generateTasksFromPrompt ::
  "env \<Rightarrow> bool \<Rightarrow> app_state \<Rightarrow> (nat \<Rightarrow> axios_error + response)
     \<Rightarrow> app_state \<times> remote_call event list" where
  "generateTasksFromPrompt env isGenerating' s post =
     (if trim (aiPrompt s) = [] \<or> isGenerating' then (s, [])
      else
        (let s1 = generate_start s;
             (evs, r) = withRetry
               (\<lambda>i. (Post (API_URL env @ ''/generate-tasks'') (aiPrompt s), post i)) 3
         in (generate_settle s1 r, evs)))"

text \<open>
  \<^verbatim>\<open>prev.filter(t => t !== taskText)\<close>: with \<open>taskText\<close> a string, an element is
  dropped exactly when it is that string.
\<close>

definition addAiSuggestion ::
  "env \<Rightarrow> app_state \<Rightarrow> string \<Rightarrow> (nat \<Rightarrow> 'e + 'r) \<Rightarrow> app_state \<times> remote_call event list" where
  "addAiSuggestion env s taskText addDoc =
     (let (s1, evs) = addTask env s taskText addDoc
      in (s1\<lparr>aiSuggestions := filter (\<lambda>t. t \<noteq> JStr taskText) (aiSuggestions s1)\<rparr>, evs))"

definition dismissAiSuggestions :: "app_state \<Rightarrow> app_state" where
  "dismissAiSuggestions s = s\<lparr>aiSuggestions := [], aiPrompt := [], showAiModal := False\<rparr>"

text \<open>The button that opens the dialog, the dialog's prompt input and its Clear All button.\<close>

definition open_modal_onClick :: "app_state \<Rightarrow> app_state" where
  "open_modal_onClick s =
     s\<lparr>aiPrompt := [], aiSuggestions := [], generationError := None, showAiModal := True\<rparr>"

definition aiPrompt_onChange :: "app_state \<Rightarrow> string \<Rightarrow> app_state" where
  "aiPrompt_onChange s v = s\<lparr>aiPrompt := v\<rparr>"

definition clear_all_onClick :: "app_state \<Rightarrow> app_state" where
  "clear_all_onClick s = s\<lparr>aiSuggestions := []\<rparr>"

text \<open>
  The button beside suggestion number \<open>i\<close> calls \<^verbatim>\<open>addAiSuggestion\<close> with that element of
  the buffer. For a string this is \<open>addAiSuggestion\<close> above. For any other value
  \<^verbatim>\<open>addTask\<close> leaves the state alone (it returns at its guard or fails at
  \<^verbatim>\<open>text.trim\<close>, before its \<^verbatim>\<open>try\<close>), and the filter \<^verbatim>\<open>t !== taskText\<close> drops the
  elements equal to a number, a boolean or \<^verbatim>\<open>null\<close>, and of arrays and objects, which
  are compared by identity, the clicked one alone.
\<close>

definition suggestion_onClick ::
  "env \<Rightarrow> app_state \<Rightarrow> nat \<Rightarrow> (nat \<Rightarrow> 'e + 'r) \<Rightarrow> app_state" where
  "suggestion_onClick env s i addDoc =
     (case aiSuggestions s ! i of
        JStr taskText \<Rightarrow> fst (addAiSuggestion env s taskText addDoc)
      | JArr xs \<Rightarrow> s\<lparr>aiSuggestions := take i (aiSuggestions s) @ drop (Suc i) (aiSuggestions s)\<rparr>
      | JObj kvs \<Rightarrow> s\<lparr>aiSuggestions := take i (aiSuggestions s) @ drop (Suc i) (aiSuggestions s)\<rparr>
      | v \<Rightarrow> s\<lparr>aiSuggestions := filter (\<lambda>t. t \<noteq> v) (aiSuggestions s)\<rparr>)"


section \<open>The suggestion workflow\<close>

text \<open>
  The states of the suggestion workflow are those the component reaches from its initial
  state by the events below, each admitted only where the rendered dialog offers it:
  \<^item> \<open>OpenModal\<close>: the button that opens the dialog;
  \<^item> \<open>ChangePrompt v\<close>: typing in the prompt input, which is disabled while
    \<^verbatim>\<open>isGenerating\<close>;
  \<^item> \<open>ClickGenerate c\<close>: the Generate button, disabled while \<^verbatim>\<open>isGenerating\<close> or while
    the prompt is blank; the handler then runs its own test with the \<^verbatim>\<open>isGenerating\<close>
    its callback captured, \<open>c\<close>, whatever that is, and starts a generation;
  \<^item> \<open>GenerationSettled r\<close>: a generation in flight settles with \<open>r\<close>;
  \<^item> \<open>ClickSuggestion i addDoc\<close>: the button beside suggestion \<open>i\<close> of the buffer;
  \<^item> \<open>ClickDismiss\<close> and \<open>ClickClearAll\<close>: the two buttons below the suggestions, rendered
    only while the buffer is non-empty;
  \<^item> \<open>Elsewhere s'\<close>: anything the rest of the component does (the task list, the
    session, a pending \<^verbatim>\<open>addTask\<close> settling): it may change every state variable but
    the five of the dialog, which nothing else writes.
  The second component of a workflow state counts the generations in flight.
\<close>

datatype ('e, 'r) ui_event =
    OpenModal
  | ChangePrompt string
  | ClickGenerate bool
  | GenerationSettled "axios_error + response option"
  | ClickSuggestion nat "nat \<Rightarrow> 'e + 'r"
  | ClickDismiss
  | ClickClearAll
  | Elsewhere app_state

definition same_dialog :: "app_state \<Rightarrow> app_state \<Rightarrow> bool" where
  "same_dialog s s' \<longleftrightarrow>
     aiPrompt s' = aiPrompt s \<and> isGenerating s' = isGenerating s
   \<and> generationError s' = generationError s \<and> aiSuggestions s' = aiSuggestions s
   \<and> showAiModal s' = showAiModal s"

fun ui_step :: "env \<Rightarrow> app_state \<times> nat \<Rightarrow> ('e, 'r) ui_event \<Rightarrow> app_state \<times> nat" where
  "ui_step env (s, n) OpenModal = (open_modal_onClick s, n)"
| "ui_step env (s, n) (ChangePrompt v) =
     (if isGenerating s then (s, n) else (aiPrompt_onChange s v, n))"
| "ui_step env (s, n) (ClickGenerate c) =
     (if isGenerating s \<or> trim (aiPrompt s) = [] then (s, n)
      else if trim (aiPrompt s) = [] \<or> c then (s, n)
      else (generate_start s, Suc n))"
| "ui_step env (s, n) (GenerationSettled r) =
     (case n of 0 \<Rightarrow> (s, n) | Suc m \<Rightarrow> (generate_settle s r, m))"
| "ui_step env (s, n) (ClickSuggestion i addDoc) =
     (if i < length (aiSuggestions s) then (suggestion_onClick env s i addDoc, n) else (s, n))"
| "ui_step env (s, n) ClickDismiss =
     (if aiSuggestions s = [] then (s, n) else (dismissAiSuggestions s, n))"
| "ui_step env (s, n) ClickClearAll =
     (if aiSuggestions s = [] then (s, n) else (clear_all_onClick s, n))"
| "ui_step env (s, n) (Elsewhere s') = (if same_dialog s s' then (s', n) else (s, n))"

definition ui_run :: "env \<Rightarrow> ('e, 'r) ui_event list \<Rightarrow> app_state \<times> nat" where
  "ui_run env evs = foldl (ui_step env) (initial_state, 0) evs"

text \<open>
  What holds in every state of the workflow: a generation error and a non-empty buffer
  never go together, while a generation runs both are clear, and one generation at most
  is in flight, exactly while \<^verbatim>\<open>isGenerating\<close>.
\<close>

definition ui_inv :: "app_state \<times> nat \<Rightarrow> bool" where
  "ui_inv sn \<longleftrightarrow>
     (generationError (fst sn) = None \<or> aiSuggestions (fst sn) = [])
   \<and> (isGenerating (fst sn) \<longrightarrow> generationError (fst sn) = None \<and> aiSuggestions (fst sn) = [])
   \<and> snd sn = (if isGenerating (fst sn) then 1 else 0)"


section \<open>Properties of the retry loop\<close>

lemma withRetry_loop_success:
  assumes "i \<le> m" "int m < retries"
    and "\<forall>j. i \<le> j \<and> j < m \<longrightarrow> (\<exists>e. snd (fn j) = Inl e)"
    and "snd (fn m) = Inr v"
  shows "withRetry_loop fn retries i = (backoff_trace fn i m, Inr (Some v))"
  using assms
proof (induction "m - i" arbitrary: i)
  case 0
  then have "i = m" by simp
  moreover obtain c where "fn m = (c, snd (fn m))" by (cases "fn m") auto
  ultimately show ?case using 0
    by (subst withRetry_loop.simps) (simp add: backoff_trace_def)
next
  case (Suc d)
  then have lt: "i < m" by simp
  with Suc.prems obtain e where "snd (fn i) = Inl e" by auto
  then obtain c where e: "fn i = (c, Inl e)" by (cases "fn i") auto
  have IH: "withRetry_loop fn retries (Suc i) = (backoff_trace fn (Suc i) m, Inr (Some v))"
    using Suc lt by (intro Suc.hyps(1)) auto
  have "[i..<m] = i # [Suc i..<m]" using lt by (simp add: upt_conv_Cons)
  then show ?case
    using lt Suc.prems(2) e IH
    by (subst withRetry_loop.simps) (simp add: backoff_trace_def)
qed

lemma withRetry_loop_exhaust:
  assumes "i \<le> m" "int m = retries - 1"
    and "\<forall>j. i \<le> j \<and> j < m \<longrightarrow> (\<exists>e. snd (fn j) = Inl e)"
    and "snd (fn m) = Inl err"
  shows "withRetry_loop fn retries i = (backoff_trace fn i m, Inl err)"
  using assms
proof (induction "m - i" arbitrary: i)
  case 0
  then have "i = m" by simp
  moreover obtain c where "fn m = (c, snd (fn m))" by (cases "fn m") auto
  ultimately show ?case using 0
    by (subst withRetry_loop.simps) (simp add: backoff_trace_def)
next
  case (Suc d)
  then have lt: "i < m" by simp
  with Suc.prems obtain e where "snd (fn i) = Inl e" by auto
  then obtain c where e: "fn i = (c, Inl e)" by (cases "fn i") auto
  have IH: "withRetry_loop fn retries (Suc i) = (backoff_trace fn (Suc i) m, Inl err)"
    using Suc lt by (intro Suc.hyps(1)) auto
  have "[i..<m] = i # [Suc i..<m]" using lt by (simp add: upt_conv_Cons)
  then show ?case
    using lt Suc.prems(2) e IH
    by (subst withRetry_loop.simps) (simp add: backoff_trace_def)
qed

lemma withRetry_success:
  assumes "int k < retries" "\<forall>i<k. \<exists>e. snd (fn i) = Inl e" "snd (fn k) = Inr v"
  shows "withRetry fn retries = (backoff_trace fn 0 k, Inr (Some v))"
  unfolding withRetry_def using assms by (intro withRetry_loop_success) auto

lemma withRetry_exhaust:
  assumes "int m = retries - 1" "\<forall>i<m. \<exists>e. snd (fn i) = Inl e" "snd (fn m) = Inl err"
  shows "withRetry fn retries = (backoff_trace fn 0 m, Inl err)"
  unfolding withRetry_def using assms by (intro withRetry_loop_exhaust) auto

lemma attempts_backoff_trace: "i \<le> m \<Longrightarrow> attempts (backoff_trace fn i m) = Suc (m - i)"
  by (induction "m - i" arbitrary: i) (auto simp: attempts_def backoff_trace_def upt_conv_Cons)


lemma double_exact_iff: "i < 1015 \<longleftrightarrow> (2::nat) ^ i * 1000 < 2 ^ 1024"
proof
  assume "i < 1015"
  then have "(2::nat) ^ i \<le> 2 ^ 1014" by (intro power_increasing) auto
  then have "(2::nat) ^ i * 1000 \<le> 2 ^ 1014 * 1000" by simp
  also have "(2::nat) ^ 1014 * 1000 < 2 ^ 1014 * 2 ^ 10" by simp
  also have "\<dots> = (2::nat) ^ 1024" by (simp flip: power_add)
  finally show "(2::nat) ^ i * 1000 < 2 ^ 1024" .
next
  assume a: "(2::nat) ^ i * 1000 < 2 ^ 1024"
  show "i < 1015"
  proof (rule ccontr)
    assume "\<not> i < 1015"
    then have "(2::nat) ^ 1015 \<le> 2 ^ i" by (intro power_increasing) auto
    then have "(2::nat) ^ 1015 * 1000 \<le> 2 ^ i * 1000" by simp
    moreover have "(2::nat) ^ 1024 = 2 ^ 1015 * 2 ^ 9" by (simp flip: power_add)
    moreover have "(2::nat) ^ 1015 * 2 ^ 9 < 2 ^ 1015 * 1000" by simp
    ultimately show False using a by linarith
  qed
qed






text \<open>
  Claim C10. With a budget that is zero or negative the loop body never runs: the action
  is never invoked, nothing is waited for, and the promise resolves with \<^verbatim>\<open>undefined\<close>.
\<close>

theorem withRetry_no_budget:
  "retries \<le> 0 \<Longrightarrow> withRetry fn retries = ([], Inr None)"
  unfolding withRetry_def by (subst withRetry_loop.simps) simp

theorem withRetry_no_budget_witness:
  "(0::int) \<le> 0 \<and> withRetry (\<lambda>i. (''addDoc'', (Inl i :: nat + string))) 0 = ([], Inr None)
   \<and> (-2::int) \<le> 0 \<and> withRetry (\<lambda>i. (''addDoc'', (Inr ''ref'' :: nat + string))) (-2) = ([], Inr None)"
  using withRetry_no_budget [of 0 "\<lambda>i. (''addDoc'', (Inl i :: nat + string))"]
    withRetry_no_budget [of "-2" "\<lambda>i. (''addDoc'', (Inr ''ref'' :: nat + string))"]
  by simp


section \<open>Properties of the order of a snapshot\<close>

text \<open>
  The comparison function is a consistent one: it is the order of the key \<open>sort_key_of\<close>,
  so the sort is the stable sort by that key, and its result is the only stable
  arrangement of the input in comparator order.
\<close>

lemma comparator_le_iff:
  "comparator a b \<le> 0 \<longleftrightarrow>
     (\<not> completed a \<and> completed b) \<or>
     (completed a = completed b \<and> toMillis_or_0 (createdAt b) \<le> toMillis_or_0 (createdAt a))"
  by (auto simp: comparator_def Let_def)

lemma comparator_le_key: "comparator a b \<le> 0 \<longleftrightarrow> sort_key_of a \<le> sort_key_of b"
  by (auto simp: comparator_le_iff sort_key_of_def less_eq_prod_def)

lemma comparator_eq_key: "comparator a b = 0 \<longleftrightarrow> sort_key_of a = sort_key_of b"
  by (auto simp: comparator_def sort_key_of_def Let_def)

lemma comparator_sign: "comparator a b < 0 \<longleftrightarrow> 0 < comparator b a"
  by (auto simp: comparator_def Let_def)

lemma insert_sorted_insort_key:
  "insert_sorted comparator x xs = insort_key sort_key_of x xs"
  by (induction xs) (simp_all add: comparator_le_key)

lemma sort_fetchedTasks_sort_key: "sort_fetchedTasks docs = sort_key sort_key_of docs"
  unfolding sort_fetchedTasks_def sort_key_def
  by (induction docs) (simp_all add: insert_sorted_insort_key)

lemma sort_fetchedTasks_unique:
  assumes "mset ys = mset docs"
    and "sorted_wrt (\<lambda>a b. comparator a b \<le> 0) ys"
    and "\<forall>k \<in> set ys. filter (\<lambda>x. comparator k x = 0) ys = filter (\<lambda>x. comparator k x = 0) docs"
  shows "sort_fetchedTasks docs = ys"
proof -
  have "sorted (map sort_key_of ys)"
    using assms(2) by (simp add: sorted_map comparator_le_key)
  moreover have "\<And>k. k \<in> set ys \<Longrightarrow>
      filter (\<lambda>x. sort_key_of k = sort_key_of x) ys = filter (\<lambda>x. sort_key_of k = sort_key_of x) docs"
    using assms(3) by (simp add: comparator_eq_key)
  ultimately show ?thesis
    unfolding sort_fetchedTasks_sort_key using assms(1)
    by (intro properties_for_sort_key) auto
qed

lemma mset_sort_fetchedTasks: "mset (sort_fetchedTasks docs) = mset docs"
  by (simp add: sort_fetchedTasks_sort_key)

lemma sorted_sort_fetchedTasks:
  "sorted_wrt (\<lambda>a b. comparator a b \<le> 0) (sort_fetchedTasks docs)"
proof -
  have "sorted (map sort_key_of (sort_key sort_key_of docs))"
    by (rule sorted_sort_key)
  then show ?thesis
    by (simp add: sorted_map comparator_le_key sort_fetchedTasks_sort_key)
qed

lemma sorted_wrt_partition:
  "sorted_wrt (\<lambda>a b. P a \<longrightarrow> P b) xs \<Longrightarrow> xs = filter (\<lambda>x. \<not> P x) xs @ filter P xs"
proof (induction xs)
  case Nil
  then show ?case by simp
next
  case (Cons x xs)
  show ?case
  proof (cases "P x")
    case True
    with Cons.prems have "\<forall>y\<in>set xs. P y" by simp
    then have "filter (\<lambda>x. \<not> P x) xs = []" "filter P xs = xs" by (auto simp: filter_empty_conv)
    with True show ?thesis by simp
  next
    case False
    with Cons show ?thesis by simp
  qed
qed

text \<open>
  Claim C5. The sorted snapshot holds the tasks of the input, and every incomplete task in
  it comes before every completed one: the output is its incomplete tasks followed by
  its completed tasks, and no completed task stands before an incomplete one.
\<close>

theorem incomplete_before_completed:
  "(let out = sort_fetchedTasks docs in
      mset out = mset docs
    \<and> out = filter (\<lambda>t. \<not> completed t) out @ filter completed out
    \<and> (\<forall>i j. i < j \<and> j < length out \<and> completed (out ! i) \<longrightarrow> completed (out ! j)))"
proof -
  let ?out = "sort_fetchedTasks docs"
  have S: "sorted_wrt (\<lambda>a b. completed a \<longrightarrow> completed b) ?out"
    by (rule sorted_wrt_mono_rel [OF _ sorted_sort_fetchedTasks]) (auto simp: comparator_le_iff)
  have "\<forall>i j. i < j \<and> j < length ?out \<and> completed (?out ! i) \<longrightarrow> completed (?out ! j)"
    using S by (auto simp: sorted_wrt_iff_nth_less)
  with sorted_wrt_partition [OF S] mset_sort_fetchedTasks [of docs]
  show ?thesis unfolding Let_def by blast
qed

theorem incomplete_before_completed_witness:
  "(let out = sort_fetchedTasks
       [\<lparr>task_id = ''a'', task_text = ''A'', completed = False, createdAt = Some 10\<rparr>,
        \<lparr>task_id = ''b'', task_text = ''B'', completed = True, createdAt = Some 20\<rparr>,
        \<lparr>task_id = ''c'', task_text = ''C'', completed = False, createdAt = Some 30\<rparr>,
        \<lparr>task_id = ''d'', task_text = ''D'', completed = True, createdAt = Some 5\<rparr>]
    in (2::nat) < 3 \<and> 3 < length out \<and> completed (out ! 2) \<and> completed (out ! 3)
       \<and> map task_id out = [''c'', ''a'', ''b'', ''d''])"
  using incomplete_before_completed
    [of "[\<lparr>task_id = ''a'', task_text = ''A'', completed = False, createdAt = Some 10\<rparr>,
        \<lparr>task_id = ''b'', task_text = ''B'', completed = True, createdAt = Some 20\<rparr>,
        \<lparr>task_id = ''c'', task_text = ''C'', completed = False, createdAt = Some 30\<rparr>,
        \<lparr>task_id = ''d'', task_text = ''D'', completed = True, createdAt = Some 5\<rparr>]"]
  by (simp add: sort_fetchedTasks_def comparator_def toMillis_or_0_def Let_def)

text \<open>
  Claim C6. Sorting is idempotent: sorting a sorted snapshot again gives the same
  sequence.
\<close>

theorem sort_fetchedTasks_idempotent:
  "sort_fetchedTasks (sort_fetchedTasks docs) = sort_fetchedTasks docs"
proof -
  have "sorted (map sort_key_of (sort_key sort_key_of docs))"
    by (rule sorted_sort_key)
  then show ?thesis
    by (simp add: sort_fetchedTasks_sort_key sort_key_id_if_sorted)
qed

text \<open>
  Claim C4. The timestamps of a snapshot are the ones the server assigned
  (\<^verbatim>\<open>createdAt: serverTimestamp()\<close> is the only write), so every resolved one is a
  positive number of milliseconds. For such a snapshot, within each completion group of
  the output: resolved timestamps descend; a task whose timestamp is unresolved is
  followed by unresolved tasks only, so it is at the end of its group; and the value it
  is sorted by, 0, is below the timestamp of every task, with the whole group in
  descending order of that value. The snapshot
  \<open>[a (incomplete, 10), b (completed, 20), c (incomplete, 30)]\<close> is ordered \<open>[c, a, b]\<close>.
\<close>

theorem newest_first_unresolved_last:
  assumes "\<forall>t\<in>set docs. \<forall>ms. createdAt t = Some ms \<longrightarrow> 0 < ms"
  shows "(let out = sort_fetchedTasks docs in
      mset out = mset docs
    \<and> (\<forall>i j a b. i < j \<and> j < length out \<and> completed (out ! i) = completed (out ! j)
             \<and> createdAt (out ! i) = Some a \<and> createdAt (out ! j) = Some b
          \<longrightarrow> b \<le> a)
    \<and> (\<forall>i j. i < j \<and> j < length out \<and> completed (out ! i) = completed (out ! j)
             \<and> createdAt (out ! i) = None
          \<longrightarrow> createdAt (out ! j) = None)
    \<and> (\<forall>i j. i < j \<and> j < length out \<and> completed (out ! i) = completed (out ! j)
          \<longrightarrow> toMillis_or_0 (createdAt (out ! j)) \<le> toMillis_or_0 (createdAt (out ! i)))
    \<and> (\<forall>t\<in>set out. toMillis_or_0 None \<le> toMillis_or_0 (createdAt t)
                    \<and> (createdAt t \<noteq> None \<longrightarrow> toMillis_or_0 None < toMillis_or_0 (createdAt t))))
   \<and> sort_fetchedTasks
       [\<lparr>task_id = ''a'', task_text = ''A'', completed = False, createdAt = Some 10\<rparr>,
        \<lparr>task_id = ''b'', task_text = ''B'', completed = True, createdAt = Some 20\<rparr>,
        \<lparr>task_id = ''c'', task_text = ''C'', completed = False, createdAt = Some 30\<rparr>]
     = [\<lparr>task_id = ''c'', task_text = ''C'', completed = False, createdAt = Some 30\<rparr>,
        \<lparr>task_id = ''a'', task_text = ''A'', completed = False, createdAt = Some 10\<rparr>,
        \<lparr>task_id = ''b'', task_text = ''B'', completed = True, createdAt = Some 20\<rparr>]"
proof -
  let ?out = "sort_fetchedTasks docs"
  let ?ms = "\<lambda>t. toMillis_or_0 (createdAt t)"
  have set_out: "set ?out = set docs"
    using mset_sort_fetchedTasks [of docs] by (metis set_mset_mset)
  have pos: "0 < ?ms t" if "t \<in> set ?out" "createdAt t \<noteq> None" for t
    using that assms set_out by (auto simp: toMillis_or_0_def)
  have S: "sorted_wrt (\<lambda>a b. completed a = completed b \<longrightarrow> ?ms b \<le> ?ms a) ?out"
    by (rule sorted_wrt_mono_rel [OF _ sorted_sort_fetchedTasks]) (auto simp: comparator_le_iff)
  then have A: "\<forall>i j. i < j \<and> j < length ?out \<and> completed (?out ! i) = completed (?out ! j)
      \<longrightarrow> ?ms (?out ! j) \<le> ?ms (?out ! i)"
    by (auto simp: sorted_wrt_iff_nth_less)
  have R: "\<forall>i j a b. i < j \<and> j < length ?out \<and> completed (?out ! i) = completed (?out ! j)
             \<and> createdAt (?out ! i) = Some a \<and> createdAt (?out ! j) = Some b \<longrightarrow> b \<le> a"
  proof (intro allI impI, elim conjE)
    fix i j a b
    assume h: "i < j" "j < length ?out" "completed (?out ! i) = completed (?out ! j)"
      "createdAt (?out ! i) = Some a" "createdAt (?out ! j) = Some b"
    with A have "?ms (?out ! j) \<le> ?ms (?out ! i)" by blast
    with h(4,5) show "b \<le> a" by (simp add: toMillis_or_0_def split: if_splits)
  qed
  have U: "\<forall>i j. i < j \<and> j < length ?out \<and> completed (?out ! i) = completed (?out ! j)
             \<and> createdAt (?out ! i) = None \<longrightarrow> createdAt (?out ! j) = None"
  proof (intro allI impI, elim conjE)
    fix i j
    assume h: "i < j" "j < length ?out" "completed (?out ! i) = completed (?out ! j)"
      "createdAt (?out ! i) = None"
    with A have "?ms (?out ! j) \<le> ?ms (?out ! i)" by blast
    then have le: "?ms (?out ! j) \<le> 0" using h(4) by (simp add: toMillis_or_0_def)
    show "createdAt (?out ! j) = None"
    proof (rule ccontr)
      assume "createdAt (?out ! j) \<noteq> None"
      then have "0 < ?ms (?out ! j)" using h(2) by (intro pos) auto
      with le show False by simp
    qed
  qed
  have L: "\<forall>t\<in>set ?out. toMillis_or_0 None \<le> ?ms t
                    \<and> (createdAt t \<noteq> None \<longrightarrow> toMillis_or_0 None < ?ms t)"
  proof
    fix t assume t: "t \<in> set ?out"
    have z: "toMillis_or_0 None = 0" by (simp add: toMillis_or_0_def)
    show "toMillis_or_0 None \<le> ?ms t \<and> (createdAt t \<noteq> None \<longrightarrow> toMillis_or_0 None < ?ms t)"
    proof (cases "createdAt t")
      case None
      then show ?thesis by simp
    next
      case (Some ms)
      then have "0 < ?ms t" using t by (intro pos) auto
      then show ?thesis by (simp add: z)
    qed
  qed
  have D: "sort_fetchedTasks
       [\<lparr>task_id = ''a'', task_text = ''A'', completed = False, createdAt = Some 10\<rparr>,
        \<lparr>task_id = ''b'', task_text = ''B'', completed = True, createdAt = Some 20\<rparr>,
        \<lparr>task_id = ''c'', task_text = ''C'', completed = False, createdAt = Some 30\<rparr>]
     = [\<lparr>task_id = ''c'', task_text = ''C'', completed = False, createdAt = Some 30\<rparr>,
        \<lparr>task_id = ''a'', task_text = ''A'', completed = False, createdAt = Some 10\<rparr>,
        \<lparr>task_id = ''b'', task_text = ''B'', completed = True, createdAt = Some 20\<rparr>]"
    by (simp add: sort_fetchedTasks_def comparator_def toMillis_or_0_def Let_def)
  show ?thesis
    unfolding Let_def using mset_sort_fetchedTasks [of docs] R U A L D by blast
qed

theorem newest_first_unresolved_last_witness:
  "(let out = sort_fetchedTasks
       [\<lparr>task_id = ''u'', task_text = ''U'', completed = False, createdAt = None\<rparr>,
        \<lparr>task_id = ''a'', task_text = ''A'', completed = False, createdAt = Some 10\<rparr>,
        \<lparr>task_id = ''b'', task_text = ''B'', completed = True, createdAt = Some 20\<rparr>,
        \<lparr>task_id = ''c'', task_text = ''C'', completed = False, createdAt = Some 30\<rparr>]
    in map task_id out = [''c'', ''a'', ''u'', ''b'']
     \<and> (0::nat) < 1 \<and> 1 < length out \<and> completed (out ! 0) = completed (out ! 1)
     \<and> createdAt (out ! 0) = Some 30 \<and> createdAt (out ! 1) = Some 10 \<and> (10::int) \<le> 30
     \<and> (1::nat) < 2 \<and> completed (out ! 1) = completed (out ! 2)
     \<and> createdAt (out ! 2) = None
     \<and> toMillis_or_0 (createdAt (out ! 2)) \<le> toMillis_or_0 (createdAt (out ! 1)))"
  using newest_first_unresolved_last
    [of "[\<lparr>task_id = ''u'', task_text = ''U'', completed = False, createdAt = None\<rparr>,
        \<lparr>task_id = ''a'', task_text = ''A'', completed = False, createdAt = Some 10\<rparr>,
        \<lparr>task_id = ''b'', task_text = ''B'', completed = True, createdAt = Some 20\<rparr>,
        \<lparr>task_id = ''c'', task_text = ''C'', completed = False, createdAt = Some 30\<rparr>]"]
  by (simp add: sort_fetchedTasks_def comparator_def toMillis_or_0_def Let_def)


section \<open>Properties of the handlers\<close>

lemma addTask_guarded:
  fixes addDoc :: "nat \<Rightarrow> 'e + 'r"
  assumes "db s = Some d" "userId s = Some uid" "uid \<noteq> []" "trim text \<noteq> []"
  shows "addTask env s text addDoc =
     (case withRetry (\<lambda>i. (AddDoc (tasksCollectionPath env uid)
                                  (trim text) False ServerTimestamp, addDoc i)) 3 of
        (evs, Inr v) \<Rightarrow> (s\<lparr>newTaskText := []\<rparr>, evs)
      | (evs, Inl error) \<Rightarrow> (s\<lparr>errorMessage := ''Could not add task. Please try again.''\<rparr>, evs))"
  using assms by (simp add: addTask_def Let_def split: prod.splits sum.splits)

text \<open>
  Claim C8. \<open>addTask\<close> with a text that is empty after trimming, and \<open>addTask\<close>,
  \<open>toggleTaskCompletion\<close> and \<open>deleteTask\<close> while no principal is bound (no database handle,
  or a user id that is \<^verbatim>\<open>null\<close> or empty), do nothing: the state is returned as it was
  and the trace is empty, so no remote call was issued.
\<close>

theorem mutations_noop:
  "(trim text = [] \<longrightarrow> addTask env s text addDoc = (s, []))
   \<and> (db s = None \<or> userId s = None \<or> userId s = Some [] \<longrightarrow>
        addTask env s text addDoc = (s, [])
      \<and> toggleTaskCompletion env s taskId c updateDoc = (s, [])
      \<and> deleteTask env s taskId deleteDoc = (s, []))"
  by (auto simp: addTask_def toggleTaskCompletion_def deleteTask_def split: option.splits)

theorem mutations_noop_witness:
  "(let s = initial_state\<lparr>db := Some Firestore, userId := Some ''u1''\<rparr>
    in trim ''   '' = [] \<and> addTask default_env s ''   '' (\<lambda>i. (Inr () :: string + unit)) = (s, [])
     \<and> trim [] = [] \<and> addTask default_env s [] (\<lambda>i. (Inr () :: string + unit)) = (s, []))
   \<and> (let s = initial_state\<lparr>db := Some Firestore\<rparr>
    in userId s = None
     \<and> addTask default_env s ''Buy milk'' (\<lambda>i. (Inr () :: string + unit)) = (s, [])
     \<and> toggleTaskCompletion default_env s ''t1'' False (\<lambda>i. (Inr () :: string + unit)) = (s, [])
     \<and> deleteTask default_env s ''t1'' (\<lambda>i. (Inr () :: string + unit)) = (s, []))"
  using mutations_noop
    [of "''   ''" default_env "initial_state\<lparr>db := Some Firestore, userId := Some ''u1''\<rparr>"
        "\<lambda>i. (Inr () :: string + unit)" "''t1''" False
        "\<lambda>i. (Inr () :: string + unit)" "\<lambda>i. (Inr () :: string + unit)"]
    mutations_noop
    [of "[]" default_env "initial_state\<lparr>db := Some Firestore, userId := Some ''u1''\<rparr>"
        "\<lambda>i. (Inr () :: string + unit)" "''t1''" False
        "\<lambda>i. (Inr () :: string + unit)" "\<lambda>i. (Inr () :: string + unit)"]
    mutations_noop
    [of "''Buy milk''" default_env "initial_state\<lparr>db := Some Firestore\<rparr>"
        "\<lambda>i. (Inr () :: string + unit)" "''t1''" False
        "\<lambda>i. (Inr () :: string + unit)" "\<lambda>i. (Inr () :: string + unit)"]
  by (simp add: default_env_def initial_state_def trim_def is_white_def Let_def)

text \<open>
  Claim C9. For an \<open>addTask\<close> call that passes its guard: when the store accepts one of the
  three attempts, the text input \<open>newTaskText\<close> is cleared and no error is set; when all
  three attempts fail, the failure is reported in \<open>errorMessage\<close> and \<open>newTaskText\<close> keeps
  its value.
\<close>

theorem addTask_settles:
  fixes addDoc :: "nat \<Rightarrow> 'e + 'r" and addDoc' :: "nat \<Rightarrow> 'e + 'r"
  assumes "db s = Some d" "userId s = Some uid" "uid \<noteq> []" "trim text \<noteq> []"
    and "k < 3" "\<forall>i<k. \<exists>e. addDoc i = Inl e" "addDoc k = Inr v"
    and "\<forall>i<3. \<exists>e. addDoc' i = Inl e"
  shows "fst (addTask env s text addDoc) = s\<lparr>newTaskText := []\<rparr>
       \<and> errorMessage (fst (addTask env s text addDoc)) = errorMessage s
       \<and> attempts (snd (addTask env s text addDoc)) = k + 1
       \<and> fst (addTask env s text addDoc') = s\<lparr>errorMessage := ''Could not add task. Please try again.''\<rparr>
       \<and> newTaskText (fst (addTask env s text addDoc')) = newTaskText s
       \<and> attempts (snd (addTask env s text addDoc')) = 3"
proof -
  let ?c = "AddDoc (tasksCollectionPath env uid) (trim text) False ServerTimestamp"
  let ?fn = "\<lambda>i. (?c, addDoc i)" and ?fn' = "\<lambda>i. (?c, addDoc' i)"
  have S: "withRetry ?fn 3 = (backoff_trace ?fn 0 k, Inr (Some v))"
    using assms(5-7) by (intro withRetry_success) auto
  have "\<exists>e. addDoc' 2 = Inl e" using assms(8) by simp
  then obtain e where "addDoc' 2 = Inl e" ..
  then have F: "withRetry ?fn' 3 = (backoff_trace ?fn' 0 2, Inl e)"
    using assms(8) by (intro withRetry_exhaust) auto
  show ?thesis
    by (simp add: addTask_guarded [OF assms(1-4)] S F attempts_backoff_trace)
qed

theorem addTask_settles_witness:
  "(let s = initial_state\<lparr>db := Some Firestore, userId := Some ''u1'', newTaskText := ''Buy milk''\<rparr>;
        ok = addTask default_env s '' Buy milk '' (\<lambda>i. if i = 1 then Inr () else Inl ''unavailable'');
        ko = addTask default_env s '' Buy milk '' (\<lambda>i. (Inl ''unavailable'' :: string + unit))
    in newTaskText (fst ok) = [] \<and> errorMessage (fst ok) = [] \<and> attempts (snd ok) = 2
     \<and> errorMessage (fst ko) = ''Could not add task. Please try again.''
     \<and> newTaskText (fst ko) = ''Buy milk'' \<and> attempts (snd ko) = 3)"
  using addTask_settles
    [of "initial_state\<lparr>db := Some Firestore, userId := Some ''u1'', newTaskText := ''Buy milk''\<rparr>"
        Firestore "''u1''" "'' Buy milk ''" 1
        "\<lambda>i. if i = 1 then Inr () else Inl ''unavailable''" "()"
        "\<lambda>i. (Inl ''unavailable'' :: string + unit)" default_env]
  by (simp add: default_env_def initial_state_def trim_def is_white_def Let_def)

text \<open>
  What a generation that passes its guard does when its request succeeds with the body
  \<open>d\<close>: any array under \<^verbatim>\<open>tasks\<close> becomes the buffer and no error is set, whatever the
  elements of the array are; without an array under \<^verbatim>\<open>tasks\<close> the format error is set
  and the buffer is empty.
\<close>

lemma generate_outcome:
  assumes "trim (aiPrompt s) \<noteq> []" "\<not> isGenerating'"
    and "k < 3" "\<forall>i<k. \<exists>e. post i = Inl e" "post k = Inr (Response d)"
  shows "(get_field d ''tasks'' = Some (JArr ts) \<longrightarrow>
            aiSuggestions (fst (generateTasksFromPrompt env isGenerating' s post)) = ts
          \<and> generationError (fst (generateTasksFromPrompt env isGenerating' s post)) = None)
       \<and> ((\<forall>ts. get_field d ''tasks'' \<noteq> Some (JArr ts)) \<longrightarrow>
            generationError (fst (generateTasksFromPrompt env isGenerating' s post))
              = Some (JStr ''AI returned an unexpected format.'')
          \<and> aiSuggestions (fst (generateTasksFromPrompt env isGenerating' s post)) = [])"
proof -
  let ?fn = "\<lambda>i. (Post (API_URL env @ ''/generate-tasks'') (aiPrompt s), post i)"
  have S: "withRetry ?fn 3 = (backoff_trace ?fn 0 k, Inr (Some (Response d)))"
    using assms(3-5) by (intro withRetry_success) auto
  have T: "get_field d ''tasks'' = Some (JArr ts) \<Longrightarrow> tasks_array d = Some ts" for ts
    by (cases d) (simp_all add: tasks_array_def)
  have N: "\<forall>ts. get_field d ''tasks'' \<noteq> Some (JArr ts) \<Longrightarrow> tasks_array d = None"
    by (auto simp: tasks_array_def split: option.splits json.splits)
  show ?thesis
    using assms(1,2)
    by (auto simp: generateTasksFromPrompt_def generate_start_def generate_settle_def
        S Let_def T N)
qed

text \<open>
  Claim C7. The claim holds for an array of strings and for a body without an array under
  \<^verbatim>\<open>tasks\<close>, but not for every body that misses the expected shape, a list of strings:
  the test is \<^verbatim>\<open>Array.isArray(response.data.tasks)\<close> alone, under the comment
  \<^verbatim>\<open>Expecting response.data.tasks to be an array of strings\<close>. With the prompt
  \<^verbatim>\<open>Plan a launch\<close> and the successful response \<^verbatim>\<open>{tasks: [1, null, "x", false]}\<close> the
  buffer is filled with these four values and no error is set, where the claim asks for
  the format error and an empty buffer. For the response of the claim's own examples,
  \<^verbatim>\<open>{tasks: ["Draft outline", "Book venue"]}\<close> and \<^verbatim>\<open>{foo: "bar"}\<close>, the outcome is the
  claimed one.
\<close>

theorem generate_accepts_non_strings:
  "(let s = aiPrompt_onChange (open_modal_onClick initial_state) ''Plan a launch'';
        mixed = generateTasksFromPrompt default_env False s
          (\<lambda>i. Inr (Response (JObj [(''tasks'', JArr [JNum 1, JNull, JStr ''x'', JBool False])])));
        good = generateTasksFromPrompt default_env False s
          (\<lambda>i. Inr (Response (JObj [(''tasks'', JArr [JStr ''Draft outline'', JStr ''Book venue''])])));
        bad = generateTasksFromPrompt default_env False s
          (\<lambda>i. Inr (Response (JObj [(''foo'', JStr ''bar'')])))
    in aiSuggestions (fst mixed) = [JNum 1, JNull, JStr ''x'', JBool False]
     \<and> generationError (fst mixed) = None
     \<and> snd mixed = [Call (Post ''http://localhost:5001/api/generate-tasks'' ''Plan a launch'')]
     \<and> aiSuggestions (fst good) = [JStr ''Draft outline'', JStr ''Book venue'']
     \<and> generationError (fst good) = None
     \<and> generationError (fst bad) = Some (JStr ''AI returned an unexpected format.'')
     \<and> aiSuggestions (fst bad) = [])"
  by (simp add: generateTasksFromPrompt_def generate_start_def generate_settle_def
      tasks_array_def withRetry_def withRetry_loop.simps default_env_def initial_state_def
      aiPrompt_onChange_def open_modal_onClick_def trim_def is_white_def Let_def)

text \<open>
  Claim C1, as the code has it. \<open>addAiSuggestion text\<close> removes every element equal to
  \<open>text\<close> from the suggestion buffer, keeping the others in order, and is otherwise one
  call of \<open>addTask text\<close>: the rest of the state and the trace of remote calls are those of
  that single call.
\<close>

theorem promote_removes_all:
  "aiSuggestions (fst (addAiSuggestion env s text addDoc))
      = filter (\<lambda>t. t \<noteq> JStr text) (aiSuggestions s)
   \<and> JStr text \<notin> set (aiSuggestions (fst (addAiSuggestion env s text addDoc)))
   \<and> fst (addAiSuggestion env s text addDoc)
      = (fst (addTask env s text addDoc))
          \<lparr>aiSuggestions := filter (\<lambda>t. t \<noteq> JStr text) (aiSuggestions s)\<rparr>
   \<and> snd (addAiSuggestion env s text addDoc) = snd (addTask env s text addDoc)"
proof -
  have "aiSuggestions (fst (addTask env s text addDoc)) = aiSuggestions s"
    by (auto simp: addTask_def Let_def split: option.splits prod.splits sum.splits)
  then show ?thesis
    by (cases "addTask env s text addDoc") (simp add: addAiSuggestion_def)
qed

text \<open>
  The claim as stated, that exactly one occurrence is removed, fails on the buffer
  \<^verbatim>\<open>["Buy milk", "Buy milk"]\<close>: promoting \<^verbatim>\<open>"Buy milk"\<close> leaves the buffer empty,
  not \<^verbatim>\<open>["Buy milk"]\<close>, while a single record is inserted.
\<close>

theorem promote_duplicates_counterexample:
  "aiSuggestions (fst (addAiSuggestion default_env
      (initial_state\<lparr>db := Some Firestore, userId := Some ''u1'',
                      aiSuggestions := [JStr ''Buy milk'', JStr ''Buy milk'']\<rparr>)
      ''Buy milk'' (\<lambda>i. (Inr () :: string + unit)))) = []
   \<and> snd (addAiSuggestion default_env
      (initial_state\<lparr>db := Some Firestore, userId := Some ''u1'',
                      aiSuggestions := [JStr ''Buy milk'', JStr ''Buy milk'']\<rparr>)
      ''Buy milk'' (\<lambda>i. (Inr () :: string + unit)))
     = [Call (AddDoc ''artifacts/default-app-id/users/u1/tasks'' ''Buy milk'' False ServerTimestamp)]"
  by (simp add: addAiSuggestion_def addTask_def withRetry_def withRetry_loop.simps
      tasksCollectionPath_def default_env_def initial_state_def trim_def is_white_def Let_def)

text \<open>
  The handler \<open>dismissAiSuggestions\<close> writes the buffer, the prompt and the visibility of
  the dialog; the generation error it leaves as it is.
\<close>

lemma dismiss_effect:
  "aiSuggestions (dismissAiSuggestions s) = []
   \<and> aiPrompt (dismissAiSuggestions s) = []
   \<and> showAiModal (dismissAiSuggestions s) = False
   \<and> generationError (dismissAiSuggestions s) = generationError s"
  by (simp add: dismissAiSuggestions_def)

lemma addTask_dialog:
  "same_dialog s (fst (addTask env s text addDoc))"
  by (auto simp: addTask_def same_dialog_def Let_def split: option.splits prod.splits sum.splits)

lemma suggestion_onClick_dialog:
  "generationError (suggestion_onClick env s i addDoc) = generationError s
   \<and> isGenerating (suggestion_onClick env s i addDoc) = isGenerating s"
proof -
  have "generationError (fst (addAiSuggestion env s t addDoc)) = generationError s
      \<and> isGenerating (fst (addAiSuggestion env s t addDoc)) = isGenerating s" for t
    using addTask_dialog [of s env t addDoc]
    by (cases "addTask env s t addDoc") (simp add: addAiSuggestion_def same_dialog_def)
  then show ?thesis
    by (simp add: suggestion_onClick_def split: json.splits)
qed

lemma ui_step_inv:
  assumes "ui_inv sn"
  shows "ui_inv (ui_step env sn ev)"
proof -
  obtain s n where sn: "sn = (s, n)" by (cases sn)
  show ?thesis
  proof (cases ev)
    case OpenModal
    with assms sn show ?thesis by (simp add: ui_inv_def open_modal_onClick_def)
  next
    case (ChangePrompt v)
    with assms sn show ?thesis by (simp add: ui_inv_def aiPrompt_onChange_def)
  next
    case (ClickGenerate c)
    with assms sn show ?thesis by (simp add: ui_inv_def generate_start_def)
  next
    case (GenerationSettled r)
    with assms sn show ?thesis
      by (cases n)
        (auto simp: ui_inv_def generate_settle_def Let_def split: sum.splits option.splits if_splits)
  next
    case (ClickSuggestion i addDoc)
    show ?thesis
    proof (cases "i < length (aiSuggestions s)")
      case True
      then have "aiSuggestions s \<noteq> []" by auto
      with assms sn have "generationError s = None" "\<not> isGenerating s" "n = 0"
        by (auto simp: ui_inv_def split: if_splits)
      with True sn ClickSuggestion show ?thesis
        by (simp add: ui_inv_def suggestion_onClick_dialog)
    next
      case False
      with assms sn ClickSuggestion show ?thesis by simp
    qed
  next
    case ClickDismiss
    with assms sn show ?thesis by (simp add: ui_inv_def dismissAiSuggestions_def)
  next
    case ClickClearAll
    with assms sn show ?thesis by (simp add: ui_inv_def clear_all_onClick_def)
  next
    case (Elsewhere s')
    with assms sn show ?thesis by (simp add: ui_inv_def same_dialog_def)
  qed
qed

lemma ui_run_inv: "ui_inv (ui_run env evs)"
proof -
  have "ui_inv sn \<Longrightarrow> ui_inv (foldl (ui_step env) sn evs)" for sn
    by (induction evs arbitrary: sn) (simp_all add: ui_step_inv)
  moreover have "ui_inv (initial_state, 0)"
    by (simp add: ui_inv_def initial_state_def)
  ultimately show ?thesis by (simp add: ui_run_def)
qed

text \<open>
  Claim C2. In every state of the suggestion workflow in which the dialog offers Dismiss
  (the button is rendered only while the buffer is non-empty), the state after
  \<open>dismissAiSuggestions\<close> has an empty buffer, no generation error and an empty prompt.
  The handler writes the buffer and the prompt; the error is clear because no state of
  the workflow has both an error and a non-empty buffer.
\<close>

theorem dismiss_clears_buffer_error_prompt:
  assumes "aiSuggestions (fst (ui_run env evs)) \<noteq> []"
  shows "aiSuggestions (dismissAiSuggestions (fst (ui_run env evs))) = []
       \<and> generationError (dismissAiSuggestions (fst (ui_run env evs))) = None
       \<and> aiPrompt (dismissAiSuggestions (fst (ui_run env evs))) = []
       \<and> fst (ui_step env (ui_run env evs) ClickDismiss) = dismissAiSuggestions (fst (ui_run env evs))"
proof -
  obtain s n where sn: "ui_run env evs = (s, n)" by (cases "ui_run env evs")
  have "generationError s = None"
    using ui_run_inv [of env evs] assms sn by (simp add: ui_inv_def)
  with assms sn show ?thesis
    by (simp add: dismissAiSuggestions_def)
qed

theorem dismiss_clears_buffer_error_prompt_witness:
  "(let evs = [OpenModal, ChangePrompt ''Plan a launch'', ClickGenerate False,
               GenerationSettled (Inr (Some (Response (JObj [(''foo'', JStr ''bar'')])))),
               ClickGenerate False,
               GenerationSettled (Inr (Some (Response
                 (JObj [(''tasks'', JArr [JStr ''Draft outline'', JStr ''Book venue''])]))))]
              :: (string, unit) ui_event list;
        s = fst (ui_run default_env evs)
    in generationError (fst (ui_run default_env (take 4 evs)))
         = Some (JStr ''AI returned an unexpected format.'')
     \<and> aiSuggestions s = [JStr ''Draft outline'', JStr ''Book venue'']
     \<and> aiPrompt s = ''Plan a launch''
     \<and> aiSuggestions (dismissAiSuggestions s) = []
     \<and> generationError (dismissAiSuggestions s) = None
     \<and> aiPrompt (dismissAiSuggestions s) = [])"
  using dismiss_clears_buffer_error_prompt
    [of default_env
        "[OpenModal, ChangePrompt ''Plan a launch'', ClickGenerate False,
          GenerationSettled (Inr (Some (Response (JObj [(''foo'', JStr ''bar'')])))),
          ClickGenerate False,
          GenerationSettled (Inr (Some (Response
            (JObj [(''tasks'', JArr [JStr ''Draft outline'', JStr ''Book venue''])]))))]
         :: (string, unit) ui_event list"]
  by (simp add: ui_run_def initial_state_def open_modal_onClick_def aiPrompt_onChange_def
      generate_start_def generate_settle_def tasks_array_def dismissAiSuggestions_def
      trim_def is_white_def Let_def)

lemma open_modal_clears_error: "generationError (open_modal_onClick s) = None"
  by (simp add: open_modal_onClick_def)


end
